theory Spec2Isabelle
  imports Main
begin

section \<open>Conference check-in automation (checkin.py)\<close>

text \<open>
  A shallow embedding of \<^verbatim>\<open>checkin.py\<close>: the calendar filter
  \<^verbatim>\<open>get_todays_events\<close>, the classifier \<^verbatim>\<open>is_conference_day\<close>, the
  browser script of \<^verbatim>\<open>submit_survey\<close> and the control flow of \<^verbatim>\<open>main\<close>.

  A Python string is modelled by the \<^typ>\<open>string\<close> of its UTF-8 bytes; substring search,
  concatenation and \<^verbatim>\<open>join\<close> act alike on the characters and on these bytes.
  \<^verbatim>\<open>str.lower\<close> is a parameter, written \<open>lower\<close> (in \<^verbatim>\<open>main\<close> it comes with the
  environment): nothing is assumed of it, except where a statement says so. Console
  output (\<^verbatim>\<open>print\<close>) is not part of the model.
\<close>

subsection \<open>Python strings\<close>

fun starts_with :: "string \<Rightarrow> string \<Rightarrow> bool" where
  "starts_with s [] = True"
| "starts_with [] (p # ps) = False"
| "starts_with (c # cs) (p # ps) = (c = p \<and> starts_with cs ps)"

text \<open>\<^verbatim>\<open>needle in haystack\<close> on strings: the needle occurs as a contiguous substring.\<close>

fun str_in :: "string \<Rightarrow> string \<Rightarrow> bool" where
  "str_in needle [] = (needle = [])"
| "str_in needle (c # cs) = (starts_with (c # cs) needle \<or> str_in needle cs)"

text \<open>\<^verbatim>\<open>sep.join(parts)\<close>\<close>

fun join :: "string \<Rightarrow> string list \<Rightarrow> string" where
  "join sep [] = []"
| "join sep [x] = x"
| "join sep (x # y # ys) = x @ sep @ join sep (y # ys)"

subsection \<open>Case-insensitive containment, as the specification words it\<close>

text \<open>
  A text contains a keyword case-insensitively when the keyword, lowered by
  \<^verbatim>\<open>str.lower\<close>, stands at some position of the text, lowered likewise.
\<close>

definition ci_contains :: "(string \<Rightarrow> string) \<Rightarrow> string \<Rightarrow> string \<Rightarrow> bool" where
  "ci_contains lower text keyword \<longleftrightarrow>
     (\<exists>i\<in>set [0..<Suc (length (lower text))].
        take (length (lower keyword)) (drop i (lower text)) = lower keyword)"

subsection \<open>Dates, times and time zones\<close>

text \<open>
  The values of \<^verbatim>\<open>datetime.date\<close> and \<^verbatim>\<open>datetime.datetime\<close>. A \<^verbatim>\<open>datetime\<close>
  carries its wall-clock fields and \<open>utcoffset\<close>, the value of its \<^verbatim>\<open>utcoffset()\<close>
  in seconds: \<open>None\<close> when \<^verbatim>\<open>tzinfo is None\<close> (a naive value). Microseconds are left
  out: the program never reads them.
\<close>

record date =
  year :: int
  month :: int
  day :: int

record datetime =
  dt_date :: date
  hour :: int
  minute :: int
  second :: int
  utcoffset :: "int option"

text \<open>
  The proleptic Gregorian day count of the \<^verbatim>\<open>datetime\<close> module (\<^verbatim>\<open>_ymd2ord\<close>,
  \<^verbatim>\<open>_ord2ymd\<close>): day 1 is 0001-01-01. Python confines dates to the years 1..9999 and
  raises \<^verbatim>\<open>OverflowError\<close> outside; the arithmetic here is unbounded. The event filter
  converts only events whose own date is today's, so that bound could matter on the
  first and the last day of the range only.
\<close>

definition is_leap :: "int \<Rightarrow> bool" where
  "is_leap y \<longleftrightarrow> y mod 4 = 0 \<and> (y mod 100 \<noteq> 0 \<or> y mod 400 = 0)"

definition days_before_year :: "int \<Rightarrow> int" where
  "days_before_year y = (let p = y - 1 in p * 365 + p div 4 - p div 100 + p div 400)"

definition DAYS_IN_MONTH :: "int list" where
  "DAYS_IN_MONTH = [31, 28, 31, 30, 31, 30, 31, 31, 30, 31, 30, 31]"

definition DAYS_BEFORE_MONTH :: "int list" where
  "DAYS_BEFORE_MONTH = [0, 31, 59, 90, 120, 151, 181, 212, 243, 273, 304, 334]"

definition days_before_month :: "int \<Rightarrow> int \<Rightarrow> int" where
  "days_before_month y m =
     DAYS_BEFORE_MONTH ! nat (m - 1) + (if m > 2 \<and> is_leap y then 1 else 0)"

definition ymd2ord :: "date \<Rightarrow> int" where
  "ymd2ord d = days_before_year (year d) + days_before_month (year d) (month d) + day d"

definition ord2ymd :: "int \<Rightarrow> date" where
  "ord2ymd ordinal =
     (let n = ordinal - 1;
          n400 = n div 146097; r400 = n mod 146097;
          n100 = r400 div 36524; r100 = r400 mod 36524;
          n4 = r100 div 1461; r4 = r100 mod 1461;
          n1 = r4 div 365; r1 = r4 mod 365;
          y = n400 * 400 + 1 + n100 * 100 + n4 * 4 + n1
      in if n1 = 4 \<or> n100 = 4 then \<lparr>year = y - 1, month = 12, day = 31\<rparr>
         else
           let leapyear = (n1 = 3 \<and> (n4 \<noteq> 24 \<or> n100 = 3));
               m = (r1 + 50) div 32;
               preceding = DAYS_BEFORE_MONTH ! nat (m - 1) + (if m > 2 \<and> leapyear then 1 else 0)
           in if preceding > r1
              then \<lparr>year = y, month = m - 1,
                    day = r1 - (preceding - (DAYS_IN_MONTH ! nat (m - 2)
                                  + (if m - 1 = 2 \<and> leapyear then 1 else 0))) + 1\<rparr>
              else \<lparr>year = y, month = m, day = r1 - preceding + 1\<rparr>)"

text \<open>Wall-clock seconds since 0001-01-01T00:00:00, and back.\<close>

definition to_seconds :: "datetime \<Rightarrow> int" where
  "to_seconds dt =
     (ymd2ord (dt_date dt) - 1) * 86400 + hour dt * 3600 + minute dt * 60 + second dt"

definition from_seconds :: "int \<Rightarrow> int option \<Rightarrow> datetime" where
  "from_seconds s off =
     \<lparr>dt_date = ord2ymd (s div 86400 + 1), hour = (s mod 86400) div 3600,
      minute = (s mod 3600) div 60, second = s mod 60, utcoffset = off\<rparr>"

text \<open>
  A \<^verbatim>\<open>ZoneInfo\<close>: the offset (seconds east of UTC) in force at a UTC instant, which
  \<^verbatim>\<open>fromutc\<close> adds, and the offset it reports for a wall-clock time of the zone.
\<close>

record zoneinfo =
  fromutc_offset :: "int \<Rightarrow> int"
  wall_offset :: "int \<Rightarrow> int"

definition fixed_zone :: "int \<Rightarrow> zoneinfo" where
  "fixed_zone off = \<lparr>fromutc_offset = (\<lambda>_. off), wall_offset = (\<lambda>_. off)\<rparr>"

text \<open>
  \<^verbatim>\<open>dt.astimezone(tz)\<close> for an aware \<open>dt\<close> whose \<^verbatim>\<open>utcoffset()\<close> is \<open>off\<close>: the
  same instant on the wall clock of \<open>tz\<close>.
\<close>

definition astimezone :: "zoneinfo \<Rightarrow> int \<Rightarrow> datetime \<Rightarrow> datetime" where
  "astimezone tz off dt =
     (let utc = to_seconds dt - off; o' = fromutc_offset tz utc
      in from_seconds (utc + o') (Some o'))"

text \<open>\<^verbatim>\<open>dt.replace(tzinfo=tz)\<close>: the wall-clock fields stay as they are.\<close>

definition replace_tzinfo :: "zoneinfo \<Rightarrow> datetime \<Rightarrow> datetime" where
  "replace_tzinfo tz dt = dt\<lparr>utcoffset := Some (wall_offset tz (to_seconds dt))\<rparr>"

text \<open>The exceptions that the model tells apart.\<close>

datatype exn = RequestException | HTTPError | ValueError | KeyError | AttributeError
  | TimeoutError | StrictModeViolation | BrowserError

text \<open>The \<^verbatim>\<open>dt\<close> of a DTSTART property: a \<^verbatim>\<open>date\<close> or a \<^verbatim>\<open>datetime\<close>.\<close>

datatype dtstart_value = DateValue date | DateTimeValue datetime

text \<open>
  What \<^verbatim>\<open>component.get("DTSTART")\<close> gives when the property is there: a property
  with its \<^verbatim>\<open>dt\<close>, or an object that has no \<^verbatim>\<open>dt\<close> (the list that stands for a
  property given more than once, a property that could not be parsed), on which
  \<^verbatim>\<open>dtstart.dt\<close> raises \<^verbatim>\<open>AttributeError\<close>.
\<close>

datatype dtstart_prop = Prop dtstart_value | NoDt

text \<open>
  A calendar component as the filter reads it: its \<^verbatim>\<open>name\<close>, \<^verbatim>\<open>get("DTSTART")\<close>
  and \<^verbatim>\<open>get("SUMMARY")\<close>. A parsed calendar is the sequence of components that
  \<^verbatim>\<open>cal.walk()\<close> yields.
\<close>

record component =
  c_name :: string
  c_dtstart :: "dtstart_prop option"
  c_summary :: "string option"

type_synonym calendar = "component list"

text \<open>
  What the program reads from outside: the clock (the current instant, in seconds
  since 0001-01-01T00:00:00 UTC), the zone of the system's local time, the answer of
  the network to \<^verbatim>\<open>requests.get\<close>, the iCalendar parser
  \<^verbatim>\<open>Calendar.from_ical\<close>, and \<^verbatim>\<open>str.lower\<close>.
\<close>

record response =
  status_code :: nat
  content :: string

record environment =
  clock :: int
  system_zone :: zoneinfo
  http_get :: "string \<Rightarrow> exn + response"
  from_ical :: "string \<Rightarrow> exn + calendar"
  str_lower :: "string \<Rightarrow> string"

text \<open>\<^verbatim>\<open>datetime.now(tz)\<close>; with no \<open>tz\<close> the naive local time of the system.\<close>

definition datetime_now :: "environment \<Rightarrow> zoneinfo option \<Rightarrow> datetime" where
  "datetime_now env tz =
     (case tz of
        Some z \<Rightarrow> (let off = fromutc_offset z (clock env) in from_seconds (clock env + off) (Some off))
      | None \<Rightarrow> from_seconds (clock env + fromutc_offset (system_zone env) (clock env)) None)"

text \<open>Decimal digits, zero padding and \<^verbatim>\<open>strftime("%m/%d/%Y")\<close>.\<close>

function dec :: "nat \<Rightarrow> string" where
  "dec n = (if n < 10 then [char_of (48 + n)] else dec (n div 10) @ [char_of (48 + n mod 10)])"
  by pat_completeness auto
termination
  by (relation "measure id") auto

definition zero_pad :: "nat \<Rightarrow> string \<Rightarrow> string" where
  "zero_pad w s = replicate (w - length s) (CHR ''0'') @ s"

definition strftime_mdY :: "datetime \<Rightarrow> string" where
  "strftime_mdY dt =
     zero_pad 2 (dec (nat (month (dt_date dt)))) @ ''/'' @
     zero_pad 2 (dec (nat (day (dt_date dt)))) @ ''/'' @
     zero_pad 4 (dec (nat (year (dt_date dt))))"

subsection \<open>Calendar functions\<close>

definition fetch_calendar :: "environment \<Rightarrow> string \<Rightarrow> exn + calendar" where
  "fetch_calendar env url =
     (case http_get env url of
        Inl e \<Rightarrow> Inl e
      | Inr response \<Rightarrow>
          if 400 \<le> status_code response \<and> status_code response < 600 then Inl HTTPError
          else from_ical env (content response))"

text \<open>The dictionaries \<^verbatim>\<open>{"summary": ..., "start": ...}\<close> built by the event filter.\<close>

record event =
  summary :: string
  start :: dtstart_value

definition time_windows :: "string \<rightharpoonup> int \<times> int" where
  "time_windows = [''8AM'' \<mapsto> (7, 10), ''12PM'' \<mapsto> (11, 14)]"

text \<open>Lines 95 to 98 of the filter: the start on the wall clock of the caller's zone.\<close>

definition local_dt :: "zoneinfo \<Rightarrow> datetime \<Rightarrow> datetime" where
  "local_dt tz event_dt =
     (case utcoffset event_dt of
        Some off \<Rightarrow> astimezone tz off event_dt
      | None \<Rightarrow> replace_tzinfo tz event_dt)"

text \<open>
  Lines 93 to 102 of the filter: \<open>False\<close> is the \<^verbatim>\<open>continue\<close> of the window test.
  \<^verbatim>\<open>if lecture_time\<close> fails for \<^verbatim>\<open>None\<close> and for the empty string; only a
  \<^verbatim>\<open>datetime\<close> has an \<^verbatim>\<open>hour\<close>.
\<close>

definition window_test :: "zoneinfo \<Rightarrow> string option \<Rightarrow> dtstart_value \<Rightarrow> bool" where
  "window_test tz lecture_time event_dt =
     (case lecture_time of
        None \<Rightarrow> True
      | Some label \<Rightarrow>
          if label = [] then True
          else
            (case event_dt of
               DateValue d \<Rightarrow> True
             | DateTimeValue dt \<Rightarrow>
                 (let (start_hour, end_hour) =
                        (case time_windows label of Some w \<Rightarrow> w | None \<Rightarrow> (0, 24))
                  in start_hour \<le> hour (local_dt tz dt) \<and> hour (local_dt tz dt) < end_hour)))"

text \<open>
  Line 87: the date of the start as it is written, before any conversion; and one turn of
  the loop over \<^verbatim>\<open>cal.walk()\<close>, where \<open>Inr None\<close> is \<^verbatim>\<open>continue\<close> and \<open>Inl\<close> an
  exception that leaves the function.
\<close>

definition event_date :: "dtstart_value \<Rightarrow> date" where
  "event_date event_dt = (case event_dt of DateTimeValue dt \<Rightarrow> dt_date dt | DateValue d \<Rightarrow> d)"

definition visit ::
  "date \<Rightarrow> zoneinfo \<Rightarrow> string option \<Rightarrow> component \<Rightarrow> exn + event option" where
  "visit today tz lecture_time c =
     (if c_name c \<noteq> ''VEVENT'' then Inr None
      else case c_dtstart c of
        None \<Rightarrow> Inr None
      | Some NoDt \<Rightarrow> Inl AttributeError
      | Some (Prop event_dt) \<Rightarrow>
          if event_date event_dt \<noteq> today then Inr None
          else if \<not> window_test tz lecture_time event_dt then Inr None
          else Inr (Some \<lparr>summary = (case c_summary c of Some s \<Rightarrow> s | None \<Rightarrow> []),
                          start = event_dt\<rparr>))"

fun walk_events ::
  "date \<Rightarrow> zoneinfo \<Rightarrow> string option \<Rightarrow> component list \<Rightarrow> event list \<Rightarrow>
   exn + event list" where
  "walk_events today tz lecture_time [] events = Inr events"
| "walk_events today tz lecture_time (c # rest) events =
     (case visit today tz lecture_time c of
        Inl e \<Rightarrow> Inl e
      | Inr None \<Rightarrow> walk_events today tz lecture_time rest events
      | Inr (Some ev) \<Rightarrow> walk_events today tz lecture_time rest (events @ [ev]))"

definition get_todays_events ::
  "environment \<Rightarrow> calendar \<Rightarrow> zoneinfo \<Rightarrow> string option \<Rightarrow> exn + event list" where
  "get_todays_events env cal tz lecture_time =
     (let today = dt_date (datetime_now env (Some tz))
      in walk_events today tz lecture_time cal [])"

text \<open>
  The nested loops of \<^verbatim>\<open>is_conference_day\<close>: the inner loop over the keywords of
  one event, the outer loop over the events. \<open>Some (keyword, event)\<close> is the early
  \<^verbatim>\<open>return\<close>, \<open>None\<close> is falling out of the loop.
\<close>

fun scan_keywords ::
  "(string \<Rightarrow> string) \<Rightarrow> event \<Rightarrow> string list \<Rightarrow> (string \<times> event) option" where
  "scan_keywords lower ev [] = None"
| "scan_keywords lower ev (keyword # rest) =
     (if str_in (lower keyword) (lower (summary ev)) then Some (keyword, ev)
      else scan_keywords lower ev rest)"

fun scan_events ::
  "(string \<Rightarrow> string) \<Rightarrow> event list \<Rightarrow> string list \<Rightarrow> (string \<times> event) option" where
  "scan_events lower [] skip_keywords = None"
| "scan_events lower (ev # rest) skip_keywords =
     (case scan_keywords lower ev skip_keywords of
        Some hit \<Rightarrow> Some hit
      | None \<Rightarrow> scan_events lower rest skip_keywords)"

definition is_conference_day ::
  "(string \<Rightarrow> string) \<Rightarrow> event list \<Rightarrow> string list \<Rightarrow> bool \<times> string" where
  "is_conference_day lower events skip_keywords =
     (if events = [] then (False, ''No events found for today'')
      else case scan_events lower events skip_keywords of
        Some (keyword, ev) \<Rightarrow>
          (False, ''Found skip keyword '' @ [CHR 0x27] @ keyword @ [CHR 0x27]
                    @ '' in event: '' @ summary ev)
      | None \<Rightarrow>
          (True, ''Conference day detected. Events: '' @ join '', '' (map summary events)))"

subsection \<open>Form submission\<close>

text \<open>
  Playwright locators as the program builds them: \<^verbatim>\<open>page.locator(sel)\<close>,
  \<^verbatim>\<open>a.or_(b)\<close>, \<^verbatim>\<open>a.first\<close>, \<^verbatim>\<open>a.last\<close>, \<^verbatim>\<open>a.nth(i)\<close> and \<^verbatim>\<open>a.locator(sel)\<close>;
  and the calls that act on the browser.
\<close>

datatype locator =
    Css string
  | Or locator locator
  | First locator
  | Last locator
  | Nth locator nat
  | Sub locator string

datatype action =
    Launch bool
  | NewPage
  | Goto string
  | WaitForTimeout nat
  | Fill locator string
  | Click locator
  | Pause
  | Close

text \<open>
  A statement of the \<^verbatim>\<open>try\<close> block: a call, a call with its \<^verbatim>\<open>except\<close> fallback, or
  an exception raised by the program itself (a missing key of \<^verbatim>\<open>likert_map\<close>).
\<close>

datatype step = Do action | TryElse action action | Raise exn

text \<open>The forward arrow U+2192, in UTF-8.\<close>

definition arrow :: string where
  "arrow = [CHR 0xE2, CHR 0x86, CHR 0x92]"

definition quote :: string where
  "quote = [CHR 0x27]"

text \<open>The click that leaves page 1 (lines 190 to 196).\<close>

definition page1_next :: locator where
  "page1_next =
     Or (Or (Or (Css ''button[aria-label='Next']'')
                (Css (''button:has-text('' @ quote @ arrow @ quote @ '')'')))
            (Css ''.NextButton''))
        (Css ''button >> nth=-1'')"

text \<open>The click that submits page 2 (lines 263 to 267).\<close>

definition page2_submit :: locator where
  "page2_submit =
     Or (Or (Css ''button[aria-label='Next']'')
            (Css (''button:has-text('' @ quote @ arrow @ quote @ '')'')))
        (Css ''.NextButton'')"

definition date_field :: locator where
  "date_field = First (Css ''input[type='text']'')"

definition likert_map :: "int \<rightharpoonup> string" where
  "likert_map = [1 \<mapsto> ''Strongly disagree'', 2 \<mapsto> ''Disagree'', 3 \<mapsto> ''Neutral'',
                 4 \<mapsto> ''Agree'', 5 \<mapsto> ''Strongly Agree'']"

definition questions :: "string list" where
  "questions =
     [''The content of the lecture was relevant and helpful'',
      ''The lecture format was effective for my learning'',
      ''The lecturer was competent and taught effectively'']"

text \<open>One turn of the loop over \<^verbatim>\<open>enumerate(zip(questions, responses))\<close>.\<close>

definition likert_step :: "nat \<times> string \<times> int \<Rightarrow> step" where
  "likert_step entry =
     (case entry of (i, question_text, response) \<Rightarrow>
        (case likert_map response of
           None \<Rightarrow> Raise KeyError
         | Some response_text \<Rightarrow>
             (let question_container = Sub (Sub (Css (''text='' @ question_text)) ''..'') ''..''
              in TryElse
                   (Click (First (Sub question_container (''text=/'' @ response_text @ ''/i''))))
                   (Click (Nth (Css (''text=/'' @ response_text @ ''/i'')) i)))))"

text \<open>The body of the \<^verbatim>\<open>try\<close> block of \<^verbatim>\<open>submit_survey\<close>, up to \<^verbatim>\<open>return True\<close>.\<close>

definition survey_steps ::
  "string \<Rightarrow> string \<Rightarrow> int list \<Rightarrow> string \<Rightarrow> string \<Rightarrow> bool \<Rightarrow> string \<Rightarrow> step list" where
  "survey_steps name lecture_time responses comment survey_url dry_run today =
     [Do (Goto survey_url), Do (WaitForTimeout 1000),
      Do (Fill (First (Css ''textarea'')) name),
      Do (Click (First (Css ''text=General Conference'')))]
     @ (if dry_run then [Do Pause] else [])
     @ [Do (Click page1_next), Do (WaitForTimeout 1000),
        Do (Click date_field), Do (Fill date_field []), Do (Fill date_field today),
        Do (Click (First (Css (''text='' @ lecture_time))))]
     @ map likert_step (enumerate 0 (zip questions responses))
     @ (if comment \<noteq> [] then [Do (Fill (Last (Css ''textarea'')) comment)] else [])
     @ (if dry_run then [Do Pause]
        else [Do (Click page2_submit), Do (WaitForTimeout 2000)])"

text \<open>
  The browser is a parameter: \<open>perform a b\<close> carries out the call \<open>a\<close> in the browser
  state \<open>b\<close> and gives the exception it raised, if any, and the state it leaves.
\<close>

fun run_step :: "(action \<Rightarrow> 'b \<Rightarrow> exn option \<times> 'b) \<Rightarrow> step \<Rightarrow> 'b \<Rightarrow> exn option \<times> 'b" where
  "run_step perform (Do a) b = perform a b"
| "run_step perform (TryElse a fallback) b =
     (case perform a b of
        (None, b') \<Rightarrow> (None, b')
      | (Some e, b') \<Rightarrow> perform fallback b')"
| "run_step perform (Raise e) b = (Some e, b)"

fun run_steps ::
  "(action \<Rightarrow> 'b \<Rightarrow> exn option \<times> 'b) \<Rightarrow> step list \<Rightarrow> 'b \<Rightarrow> exn option \<times> 'b" where
  "run_steps perform [] b = (None, b)"
| "run_steps perform (s # rest) b =
     (case run_step perform s b of
        (None, b') \<Rightarrow> run_steps perform rest b'
      | (Some e, b') \<Rightarrow> (Some e, b'))"

text \<open>
  What a call of \<^verbatim>\<open>submit_survey\<close> ends in: a returned boolean, or an exception that
  leaves the function (from launching or closing the browser, or from the pause of the
  \<^verbatim>\<open>except\<close> branch).
\<close>

datatype outcome = Returned bool | Raised exn

definition submit_survey ::
  "environment \<Rightarrow> (action \<Rightarrow> 'b \<Rightarrow> exn option \<times> 'b) \<Rightarrow>
   string \<Rightarrow> string \<Rightarrow> int list \<Rightarrow> string \<Rightarrow> string \<Rightarrow> bool \<Rightarrow> 'b \<Rightarrow> outcome \<times> 'b" where
  "submit_survey env perform name lecture_time responses comment survey_url dry_run b0 =
     (let today = strftime_mdY (datetime_now env None)
      in case perform (Launch (\<not> dry_run)) b0 of
           (Some e, b1) \<Rightarrow> (Raised e, b1)
         | (None, b1) \<Rightarrow>
        (case perform NewPage b1 of
           (Some e, b2) \<Rightarrow> (Raised e, b2)
         | (None, b2) \<Rightarrow>
        (let (result, b4) =
               (case run_steps perform
                       (survey_steps name lecture_time responses comment survey_url dry_run today)
                       b2 of
                  (None, b3) \<Rightarrow> (Returned True, b3)
                | (Some e, b3) \<Rightarrow>
                    if dry_run
                    then (case perform Pause b3 of
                            (None, b') \<Rightarrow> (Returned False, b')
                          | (Some e', b') \<Rightarrow> (Raised e', b'))
                    else (Returned False, b3))
         in case perform Close b4 of
              (None, b5) \<Rightarrow> (result, b5)
            | (Some e, b5) \<Rightarrow> (Raised e, b5))))"

text \<open>
  A browser that also keeps the list of the calls made on it, and the texts that a
  list of calls types into a given field.
\<close>

definition recording ::
  "(action \<Rightarrow> 'b \<Rightarrow> exn option \<times> 'b) \<Rightarrow> action \<Rightarrow> 'b \<times> action list \<Rightarrow>
   exn option \<times> 'b \<times> action list" where
  "recording perform a s =
     (case perform a (fst s) of (r, b') \<Rightarrow> (r, b', snd s @ [a]))"

fun typed_into :: "locator \<Rightarrow> action list \<Rightarrow> string list" where
  "typed_into field [] = []"
| "typed_into field (Fill l text # rest) =
     (if l = field then text # typed_into field rest else typed_into field rest)"
| "typed_into field (a # rest) = typed_into field rest"

text \<open>The calls that a statement can make.\<close>

fun step_actions :: "step \<Rightarrow> action list" where
  "step_actions (Do a) = [a]"
| "step_actions (TryElse a fallback) = [a, fallback]"
| "step_actions (Raise e) = []"

text \<open>
  How Playwright resolves a locator on a page. A page is given by the elements (numbered
  in document order) that a selector matches, on the whole page or below an element.
  \<^verbatim>\<open>or_\<close> matches the elements that either side matches; a click needs exactly one
  element.
\<close>

type_synonym page = "nat option \<Rightarrow> string \<Rightarrow> nat list"

fun resolve :: "page \<Rightarrow> locator \<Rightarrow> nat list" where
  "resolve pg (Css sel) = pg None sel"
| "resolve pg (Or a b) = sort (remdups (resolve pg a @ resolve pg b))"
| "resolve pg (First a) = take 1 (resolve pg a)"
| "resolve pg (Last a) = (case resolve pg a of [] \<Rightarrow> [] | x # xs \<Rightarrow> [last (x # xs)])"
| "resolve pg (Nth a i) = take 1 (drop i (resolve pg a))"
| "resolve pg (Sub a sel) = sort (remdups (concat (map (\<lambda>e. pg (Some e) sel) (resolve pg a))))"

definition click_target :: "page \<Rightarrow> locator \<Rightarrow> exn + nat" where
  "click_target pg l =
     (case resolve pg l of
        [] \<Rightarrow> Inl TimeoutError
      | [e] \<Rightarrow> Inr e
      | _ \<Rightarrow> Inl StrictModeViolation)"

text \<open>The alternatives of an \<^verbatim>\<open>or_\<close> chain, in the order they are written.\<close>

fun candidates :: "locator \<Rightarrow> locator list" where
  "candidates (Or a b) = candidates a @ candidates b"
| "candidates l = [l]"

subsection \<open>Main\<close>

text \<open>
  The configuration and the parsed command line. \<open>cfg_timezone\<close> is the \<^verbatim>\<open>ZoneInfo\<close>
  that line 309 builds from \<^verbatim>\<open>CONFIG["timezone"]\<close>; loading the configuration,
  parsing the arguments and looking the zone up come before the modelled steps.
\<close>

record config =
  cfg_name :: string
  cfg_calendar_url :: string
  cfg_survey_url :: string
  cfg_timezone :: zoneinfo
  cfg_skip_keywords :: "string list"
  cfg_default_responses :: "int list"
  cfg_comment :: string

record args =
  arg_time :: string
  arg_dry_run :: bool
  arg_force :: bool

text \<open>The arguments of one call of \<^verbatim>\<open>submit_survey\<close>.\<close>

record survey_call =
  call_name :: string
  call_lecture_time :: string
  call_responses :: "int list"
  call_comment :: string
  call_survey_url :: string
  call_dry_run :: bool

text \<open>
  The \<^verbatim>\<open>try\<close> block of step 1 (lines 316 to 320): fetching, filtering and
  classifying. \<open>Inl\<close> is an exception raised by any of them, all caught by the one
  \<^verbatim>\<open>except Exception\<close>. The classifier is modelled on a list of strings, as it is
  annotated.
\<close>

definition check_calendar :: "environment \<Rightarrow> config \<Rightarrow> args \<Rightarrow> exn + bool \<times> string" where
  "check_calendar env cfg a =
     (case fetch_calendar env (cfg_calendar_url cfg) of
        Inl e \<Rightarrow> Inl e
      | Inr cal \<Rightarrow>
          (case get_todays_events env cal (cfg_timezone cfg) (Some (arg_time a)) of
             Inl e \<Rightarrow> Inl e
           | Inr events \<Rightarrow>
               Inr (is_conference_day (str_lower env) events (cfg_skip_keywords cfg))))"

definition the_call :: "config \<Rightarrow> args \<Rightarrow> survey_call" where
  "the_call cfg a =
     \<lparr>call_name = cfg_name cfg, call_lecture_time = arg_time a,
      call_responses = cfg_default_responses cfg, call_comment = cfg_comment cfg,
      call_survey_url = cfg_survey_url cfg, call_dry_run = arg_dry_run a\<rparr>"

text \<open>
  \<^verbatim>\<open>main\<close> gives the exit code of the process, the calls of \<^verbatim>\<open>submit_survey\<close> it
  made and the browser state it leaves. An exception that leaves \<^verbatim>\<open>submit_survey\<close>
  ends the process with a traceback and exit code 1. \<open>main_from\<close> is \<^verbatim>\<open>main\<close> from the
  end of the \<^verbatim>\<open>try\<close> block on (the \<^verbatim>\<open>except\<close> branch, then steps 2 and 3), given
  what the block ended in: the exception it raised, or the value of \<^verbatim>\<open>is_conf\<close>.
\<close>

definition main_from ::
  "exn + bool \<Rightarrow> environment \<Rightarrow> (action \<Rightarrow> 'b \<Rightarrow> exn option \<times> 'b) \<Rightarrow> config \<Rightarrow> args \<Rightarrow> 'b \<Rightarrow>
   int \<times> survey_call list \<times> 'b" where
  "main_from tried env perform cfg a b0 =
     (case (case tried of
              Inr is_conf \<Rightarrow> Inr is_conf
            | Inl e \<Rightarrow> if \<not> arg_force a then Inl (1 :: int) else Inr True) of
        Inl code \<Rightarrow> (code, [], b0)
      | Inr is_conf \<Rightarrow>
          if \<not> is_conf \<and> \<not> arg_force a then (0, [], b0)
          else
            (case submit_survey env perform (cfg_name cfg) (arg_time a)
                    (cfg_default_responses cfg) (cfg_comment cfg) (cfg_survey_url cfg)
                    (arg_dry_run a) b0 of
               (result, b') \<Rightarrow>
                 ((if result = Returned True then 0 else 1), [the_call cfg a], b')))"

definition main ::
  "environment \<Rightarrow> (action \<Rightarrow> 'b \<Rightarrow> exn option \<times> 'b) \<Rightarrow> config \<Rightarrow> args \<Rightarrow> 'b \<Rightarrow>
   int \<times> survey_call list \<times> 'b" where
  "main env perform cfg a b0 =
     main_from (case check_calendar env cfg a of
                  Inl e \<Rightarrow> Inl e
                | Inr (is_conf, reason) \<Rightarrow> Inr is_conf)
       env perform cfg a b0"

subsection \<open>Sample data\<close>

text \<open>
  Concrete inputs for the examples below, all in ASCII: zones with a fixed offset, dates
  and times, calendar components (one of them with its DTSTART given twice), an
  environment whose network serves a given calendar and one whose network is down, the
  default configuration with a given zone, parsed arguments, a browser in which every
  call succeeds, one in which every click times out, and a page on which every selector
  finds one element, except that its only button carries neither the label, the arrow
  nor the class that the program looks for.
\<close>

text \<open>\<^verbatim>\<open>str.lower\<close> as it acts on ASCII text: A..Z become a..z.\<close>

definition ascii_lower_char :: "char \<Rightarrow> char" where
  "ascii_lower_char c =
     (let n = (of_char c :: nat) in if 65 \<le> n \<and> n \<le> 90 then char_of (n + 32) else c)"

definition ascii_lower :: "string \<Rightarrow> string" where
  "ascii_lower s = map ascii_lower_char s"

definition utc :: zoneinfo where
  "utc = fixed_zone 0"

definition pacific :: zoneinfo where
  "pacific = fixed_zone (- 28800)"

definition tokyo :: zoneinfo where
  "tokyo = fixed_zone 32400"

definition ymd :: "int \<Rightarrow> int \<Rightarrow> int \<Rightarrow> date" where
  "ymd y m d = \<lparr>year = y, month = m, day = d\<rparr>"

definition at_time :: "date \<Rightarrow> int \<Rightarrow> int \<Rightarrow> int option \<Rightarrow> datetime" where
  "at_time d h mi off = \<lparr>dt_date = d, hour = h, minute = mi, second = 0, utcoffset = off\<rparr>"

definition vevent :: "string \<Rightarrow> dtstart_value \<Rightarrow> component" where
  "vevent title s = \<lparr>c_name = ''VEVENT'', c_dtstart = Some (Prop s), c_summary = Some title\<rparr>"

definition doubled_start :: "string \<Rightarrow> component" where
  "doubled_start title = \<lparr>c_name = ''VEVENT'', c_dtstart = Some NoDt, c_summary = Some title\<rparr>"

definition all_day :: "string \<Rightarrow> event" where
  "all_day s = \<lparr>summary = s, start = DateValue (ymd 2024 1 15)\<rparr>"

definition serving :: "int \<Rightarrow> zoneinfo \<Rightarrow> calendar \<Rightarrow> environment" where
  "serving now zone cal =
     \<lparr>clock = now, system_zone = zone,
      http_get = (\<lambda>_. Inr \<lparr>status_code = 200, content = []\<rparr>),
      from_ical = (\<lambda>_. Inr cal), str_lower = ascii_lower\<rparr>"

definition offline :: "int \<Rightarrow> zoneinfo \<Rightarrow> environment" where
  "offline now zone =
     \<lparr>clock = now, system_zone = zone,
      http_get = (\<lambda>_. Inl RequestException),
      from_ical = (\<lambda>_. Inl ValueError), str_lower = ascii_lower\<rparr>"

definition noon_utc :: int where
  "noon_utc = to_seconds (at_time (ymd 2024 1 15) 16 30 (Some 0))"

definition small_hours :: int where
  "small_hours = to_seconds (at_time (ymd 2024 1 1) 3 0 (Some 0))"

definition sample_config :: "zoneinfo \<Rightarrow> config" where
  "sample_config tz =
     \<lparr>cfg_name = ''Your Name'',
      cfg_calendar_url = ''https://calendar.google.com/calendar/ical/ucsfrad%40gmail.com/public/basic.ics'',
      cfg_survey_url = ''https://ucsf.co1.qualtrics.com/jfe/form/SV_8kUOSKMVlxBzCp8'',
      cfg_timezone = tz,
      cfg_skip_keywords = [''admin'', ''wellness''],
      cfg_default_responses = [5, 5, 5],
      cfg_comment = []\<rparr>"

definition sample_args :: "string \<Rightarrow> bool \<Rightarrow> args" where
  "sample_args t f = \<lparr>arg_time = t, arg_dry_run = False, arg_force = f\<rparr>"

definition obliging :: "action \<Rightarrow> unit \<Rightarrow> exn option \<times> unit" where
  "obliging a b = (None, b)"

definition stuck :: "action \<Rightarrow> unit \<Rightarrow> exn option \<times> unit" where
  "stuck a b = (case a of Click l \<Rightarrow> (Some TimeoutError, b) | _ \<Rightarrow> (None, b))"

definition lone_button_page :: page where
  "lone_button_page scope sel =
     (if sel = ''button[aria-label='Next']'' \<or> sel = ''.NextButton''
         \<or> sel = ''button:has-text('' @ quote @ arrow @ quote @ '')'' then []
      else if sel = ''button >> nth=-1'' then [0]
      else [1])"

text \<open>A browser showing one page: a click or a fill needs exactly one element.\<close>

definition browser_on :: "page \<Rightarrow> action \<Rightarrow> unit \<Rightarrow> exn option \<times> unit" where
  "browser_on pg a b =
     (case a of
        Click l \<Rightarrow> (case click_target pg l of Inl e \<Rightarrow> (Some e, b) | Inr el \<Rightarrow> (None, b))
      | Fill l text \<Rightarrow> (case click_target pg l of Inl e \<Rightarrow> (Some e, b) | Inr el \<Rightarrow> (None, b))
      | _ \<Rightarrow> (None, b))"

section \<open>Properties\<close>

subsection \<open>Substring search\<close>

lemma starts_with_iff: "starts_with s p \<longleftrightarrow> take (length p) s = p"
  by (induction s p rule: starts_with.induct) auto

lemma str_in_iff: "str_in n h \<longleftrightarrow> (\<exists>i\<le>length h. take (length n) (drop i h) = n)"
proof (induction h)
  case Nil
  then show ?case by auto
next
  case (Cons c cs)
  have "(\<exists>i\<le>length (c # cs). take (length n) (drop i (c # cs)) = n) \<longleftrightarrow>
        take (length n) (c # cs) = n \<or> (\<exists>i\<le>length cs. take (length n) (drop i cs) = n)"
    (is "?L \<longleftrightarrow> ?A \<or> ?B")
  proof
    assume ?L
    then obtain i where i: "i \<le> length (c # cs)" "take (length n) (drop i (c # cs)) = n"
      by blast
    show "?A \<or> ?B"
    proof (cases i)
      case 0
      with i show ?thesis by simp
    next
      case (Suc k)
      with i have "k \<le> length cs" "take (length n) (drop k cs) = n" by simp_all
      then show ?thesis by blast
    qed
  next
    assume "?A \<or> ?B"
    then show ?L
    proof
      assume ?A
      then have "take (length n) (drop 0 (c # cs)) = n" by simp
      then show ?L by blast
    next
      assume ?B
      then obtain k where "k \<le> length cs" "take (length n) (drop k cs) = n" by blast
      then have "Suc k \<le> length (c # cs)" "take (length n) (drop (Suc k) (c # cs)) = n"
        by simp_all
      then show ?L by blast
    qed
  qed
  then show ?case
    by (simp add: starts_with_iff Cons.IH del: starts_with.simps)
qed

text \<open>
  The test of the program, \<^verbatim>\<open>keyword.lower() in summary\<close> with the summary lowered,
  decides case-insensitive containment, whatever \<^verbatim>\<open>str.lower\<close> does.
\<close>

lemma str_in_lower_iff: "str_in (lower k) (lower t) \<longleftrightarrow> ci_contains lower t k"
  by (simp add: str_in_iff ci_contains_def Bex_def less_Suc_eq_le del: upt_Suc)


subsection \<open>The classifier\<close>

lemma scan_keywords_None_iff:
  "scan_keywords lower ev ks = None \<longleftrightarrow> (\<forall>k\<in>set ks. \<not> ci_contains lower (summary ev) k)"
  by (induction ks) (simp_all add: str_in_lower_iff)


lemma scan_events_None_iff:
  "scan_events lower es ks = None \<longleftrightarrow>
     (\<forall>ev\<in>set es. \<forall>k\<in>set ks. \<not> ci_contains lower (summary ev) k)"
proof (induction es)
  case Nil
  show ?case by simp
next
  case (Cons a es)
  show ?case
  proof (cases "scan_keywords lower a ks")
    case None
    with Cons show ?thesis by (simp add: scan_keywords_None_iff [symmetric])
  next
    case (Some hit)
    then have "scan_keywords lower a ks \<noteq> None" by simp
    then have "\<exists>k\<in>set ks. ci_contains lower (summary a) k"
      by (simp add: scan_keywords_None_iff)
    then have "\<not> (\<forall>ev\<in>set (a # es). \<forall>k\<in>set ks. \<not> ci_contains lower (summary ev) k)"
      by simp
    moreover have "scan_events lower (a # es) ks \<noteq> None"
      using Some by simp
    ultimately show ?thesis by blast
  qed
qed





text \<open>
  Claim C2. When the event list is not empty and no summary contains a skip keyword
  case-insensitively, the classifier answers \<open>True\<close> and its reason is
  \<open>Conference day detected. Events:\<close> followed by the summaries, in the order of the
  list, joined by a comma and a space; this holds for every lowering function. For the
  events Grand Rounds and Journal Club and the keyword \<open>wellness\<close>, where lowering is
  that of ASCII, the reason reads
  \<open>Conference day detected. Events: Grand Rounds, Journal Club\<close>.
\<close>

theorem is_conference_day_no_skip_match:
  "(events \<noteq> [] \<and>
    (\<forall>ev\<in>set events. \<forall>k\<in>set skip_keywords. \<not> ci_contains lower (summary ev) k) \<longrightarrow>
      is_conference_day lower events skip_keywords =
        (True, ''Conference day detected. Events: '' @ join '', '' (map summary events))) \<and>
   is_conference_day ascii_lower
       [\<lparr>summary = ''Grand Rounds'', start = s1\<rparr>, \<lparr>summary = ''Journal Club'', start = s2\<rparr>]
       [''wellness''] =
     (True, ''Conference day detected. Events: Grand Rounds, Journal Club'')"
proof
  show "events \<noteq> [] \<and>
    (\<forall>ev\<in>set events. \<forall>k\<in>set skip_keywords. \<not> ci_contains lower (summary ev) k) \<longrightarrow>
      is_conference_day lower events skip_keywords =
        (True, ''Conference day detected. Events: '' @ join '', '' (map summary events))"
    by (simp add: is_conference_day_def scan_events_None_iff [symmetric])
next
  have "\<not> str_in (ascii_lower ''wellness'') (ascii_lower ''Grand Rounds'')" by code_simp
  moreover have "\<not> str_in (ascii_lower ''wellness'') (ascii_lower ''Journal Club'')"
    by code_simp
  ultimately show "is_conference_day ascii_lower
       [\<lparr>summary = ''Grand Rounds'', start = s1\<rparr>, \<lparr>summary = ''Journal Club'', start = s2\<rparr>]
       [''wellness''] =
     (True, ''Conference day detected. Events: Grand Rounds, Journal Club'')"
    by (simp add: is_conference_day_def)
qed

theorem is_conference_day_no_skip_match_witness:
  "[all_day ''Grand Rounds'', all_day ''Journal Club''] \<noteq> [] \<and>
   is_conference_day ascii_lower [all_day ''Grand Rounds'', all_day ''Journal Club'']
       [''wellness'', ''admin''] =
     (True, ''Conference day detected. Events: Grand Rounds, Journal Club'')"
proof -
  have h: "[all_day ''Grand Rounds'', all_day ''Journal Club''] \<noteq> [] \<and>
   (\<forall>ev\<in>set [all_day ''Grand Rounds'', all_day ''Journal Club''].
      \<forall>k\<in>set [''wellness'', ''admin'']. \<not> ci_contains ascii_lower (summary ev) k)"
    by code_simp
  have j: "join '', '' (map summary [all_day ''Grand Rounds'', all_day ''Journal Club'']) =
     ''Grand Rounds, Journal Club''"
    by (simp add: all_day_def)
  from h is_conference_day_no_skip_match
         [of "[all_day ''Grand Rounds'', all_day ''Journal Club'']" "[''wellness'', ''admin'']"
             ascii_lower]
  show ?thesis unfolding j by simp
qed

text \<open>
  Claim C3, as the program has it. For the empty event list the classifier answers
  \<open>False\<close> whatever the skip keywords are, and the reason is
  \<open>No events found for today\<close>, with a capital N.
\<close>

theorem is_conference_day_empty:
  "is_conference_day lower [] skip_keywords = (False, ''No events found for today'')"
  by (simp add: is_conference_day_def)

text \<open>The reason is not the lower-case string.\<close>

theorem is_conference_day_empty_counterexample:
  "is_conference_day ascii_lower [] [''admin'', ''wellness''] \<noteq>
     (False, ''no events found for today'')"
  by (simp add: is_conference_day_def)




subsection \<open>The event filter\<close>

lemma walk_events_acc:
  "walk_events today tz lt cal acc =
     (case walk_events today tz lt cal [] of Inl e \<Rightarrow> Inl e | Inr ys \<Rightarrow> Inr (acc @ ys))"
proof (induction cal arbitrary: acc)
  case Nil
  show ?case by simp
next
  case (Cons c cal)
  show ?case
  proof (cases "visit today tz lt c")
    case (Inl e)
    then show ?thesis by simp
  next
    case (Inr r)
    show ?thesis
    proof (cases r)
      case None
      with Inr show ?thesis using Cons [of acc] by simp
    next
      case (Some ev)
      with Inr show ?thesis
        using Cons [of "acc @ [ev]"] Cons [of "[ev]"] by (simp split: sum.splits)
    qed
  qed
qed

lemma walk_events_append:
  "walk_events today tz lt (xs @ ys) acc =
     (case walk_events today tz lt xs acc of
        Inl e \<Rightarrow> Inl e
      | Inr acc' \<Rightarrow> walk_events today tz lt ys acc')"
  by (induction xs arbitrary: acc) (simp_all split: sum.splits option.splits)

text \<open>
  The filter treats each component on its own and keeps the order of the calendar; the
  first exception ends it.
\<close>

lemma get_todays_events_split:
  "get_todays_events env (pre @ c # post) tz lt =
     (case get_todays_events env pre tz lt of
        Inl e \<Rightarrow> Inl e
      | Inr xs \<Rightarrow>
          (case visit (dt_date (datetime_now env (Some tz))) tz lt c of
             Inl e \<Rightarrow> Inl e
           | Inr r \<Rightarrow>
               (case get_todays_events env post tz lt of
                  Inl e \<Rightarrow> Inl e
                | Inr ys \<Rightarrow> Inr (xs @ (case r of None \<Rightarrow> [] | Some ev \<Rightarrow> [ev]) @ ys))))"
proof -
  let ?today = "dt_date (datetime_now env (Some tz))"
  let ?w = "walk_events ?today tz lt"
  have step: "?w (c # post) acc =
      (case visit ?today tz lt c of
         Inl e \<Rightarrow> Inl e
       | Inr r \<Rightarrow>
           (case ?w post [] of
              Inl e \<Rightarrow> Inl e
            | Inr ys \<Rightarrow> Inr (acc @ (case r of None \<Rightarrow> [] | Some ev \<Rightarrow> [ev]) @ ys)))" for acc
  proof (cases "visit ?today tz lt c")
    case (Inl e)
    then show ?thesis by simp
  next
    case (Inr r)
    show ?thesis
    proof (cases r)
      case None
      with Inr show ?thesis
        using walk_events_acc [of ?today tz lt post acc] by (simp split: sum.splits)
    next
      case (Some ev)
      with Inr show ?thesis
        using walk_events_acc [of ?today tz lt post "acc @ [ev]"] by (simp split: sum.splits)
    qed
  qed
  have "?w (pre @ c # post) [] =
        (case ?w pre [] of Inl e \<Rightarrow> Inl e | Inr xs \<Rightarrow> ?w (c # post) xs)"
    by (rule walk_events_append)
  then show ?thesis
    by (simp add: get_todays_events_def Let_def step del: walk_events.simps split: sum.splits)
qed

lemma window_test_date: "window_test tz lecture_time (DateValue d)"
  by (simp add: window_test_def split: option.splits)

lemma get_todays_events_Nil: "get_todays_events env [] tz lt = Inr []"
  by (simp add: get_todays_events_def)

text \<open>
  For a start whose own date is today's, the two named windows admit the local hours
  7, 8, 9 and 11, 12, 13.
\<close>

lemma window_inclusion_when_own_date_is_today:
  assumes "c_name c = ''VEVENT''" and "c_dtstart c = Some (Prop (DateTimeValue dt))"
    and "dt_date dt = today"
  shows "(visit today tz (Some ''8AM'') c \<noteq> Inr None \<longleftrightarrow>
            7 \<le> hour (local_dt tz dt) \<and> hour (local_dt tz dt) < 10) \<and>
         (visit today tz (Some ''12PM'') c \<noteq> Inr None \<longleftrightarrow>
            11 \<le> hour (local_dt tz dt) \<and> hour (local_dt tz dt) < 14)"
  using assms by (simp add: visit_def event_date_def window_test_def time_windows_def)

lemma morning_window_scenario:
  "map (\<lambda>h. get_todays_events (offline noon_utc utc)
              [vevent ''Grand Rounds'' (DateTimeValue (at_time (ymd 2024 1 15) h 0 None))]
              pacific (Some ''8AM'') \<noteq> Inr [])
       [6, 7, 9, 10] = [False, True, True, False]"
  by code_simp

text \<open>
  The window test by itself gives the same answer for a naive start and an aware start
  that show the same hour in the caller's zone.
\<close>

lemma window_test_naive_aware:
  assumes "utcoffset n = None" and "utcoffset a = Some off"
    and "hour (astimezone tz off a) = hour n"
  shows "window_test tz lecture_time (DateTimeValue n) =
           window_test tz lecture_time (DateTimeValue a)"
  using assms by (simp add: window_test_def local_dt_def replace_tzinfo_def split: option.splits)

text \<open>
  Claim C4, where the program departs from it. It is 08:30 on 2 January 2024 in a zone
  nine hours east of UTC, and the calendar holds one event that starts at
  2024-01-01T23:00:00Z. In local time that start is 08:00 on 2 January: its local date
  is today and its local hour lies in the morning window. The filter compares the date
  of the start as it is written, 1 January, with today and drops the event; the same
  start written as a naive local time is kept.
\<close>

theorem utc_start_on_the_eve_is_dropped:
  "dt_date (datetime_now (offline (to_seconds (at_time (ymd 2024 1 1) 23 30 (Some 0))) utc) (Some tokyo))
     = ymd 2024 1 2 \<and>
   local_dt tokyo (at_time (ymd 2024 1 1) 23 0 (Some 0)) = at_time (ymd 2024 1 2) 8 0 (Some 32400) \<and>
   get_todays_events (offline (to_seconds (at_time (ymd 2024 1 1) 23 30 (Some 0))) utc)
       [vevent ''Grand Rounds'' (DateTimeValue (at_time (ymd 2024 1 1) 23 0 (Some 0)))]
       tokyo (Some ''8AM'') = Inr [] \<and>
   get_todays_events (offline (to_seconds (at_time (ymd 2024 1 1) 23 30 (Some 0))) utc)
       [vevent ''Grand Rounds'' (DateTimeValue (at_time (ymd 2024 1 2) 8 0 None))]
       tokyo (Some ''8AM'') =
     Inr [\<lparr>summary = ''Grand Rounds'', start = DateTimeValue (at_time (ymd 2024 1 2) 8 0 None)\<rparr>]"
  by code_simp

text \<open>
  Claim C5. An event whose start is a date with no time passes the window test for
  every window label, and the filter keeps it exactly when that date is today's: in any
  calendar, and for any label or none, the event contributes itself when its date is
  today and nothing otherwise, between what the components before it and after it
  contribute (an exception raised by one of those ends the filter, as it does without
  the event).
\<close>

theorem date_only_event_ignores_window:
  assumes "c_name c = ''VEVENT''" and "c_dtstart c = Some (Prop (DateValue d))"
  shows "window_test tz lecture_time (DateValue d) \<and>
     get_todays_events env (pre @ c # post) tz lecture_time =
       (case get_todays_events env pre tz lecture_time of
          Inl e \<Rightarrow> Inl e
        | Inr before \<Rightarrow>
            (case get_todays_events env post tz lecture_time of
               Inl e \<Rightarrow> Inl e
             | Inr after \<Rightarrow>
                 Inr (before
                      @ (if d = dt_date (datetime_now env (Some tz))
                         then [\<lparr>summary = (case c_summary c of Some s \<Rightarrow> s | None \<Rightarrow> []),
                                 start = DateValue d\<rparr>]
                         else [])
                      @ after)))"
proof
  show "window_test tz lecture_time (DateValue d)"
    by (rule window_test_date)
  have v: "visit (dt_date (datetime_now env (Some tz))) tz lecture_time c =
      Inr (if d = dt_date (datetime_now env (Some tz))
           then Some \<lparr>summary = (case c_summary c of Some s \<Rightarrow> s | None \<Rightarrow> []),
                      start = DateValue d\<rparr>
           else None)"
    using assms by (simp add: visit_def event_date_def window_test_date)
  show "get_todays_events env (pre @ c # post) tz lecture_time =
       (case get_todays_events env pre tz lecture_time of
          Inl e \<Rightarrow> Inl e
        | Inr before \<Rightarrow>
            (case get_todays_events env post tz lecture_time of
               Inl e \<Rightarrow> Inl e
             | Inr after \<Rightarrow>
                 Inr (before
                      @ (if d = dt_date (datetime_now env (Some tz))
                         then [\<lparr>summary = (case c_summary c of Some s \<Rightarrow> s | None \<Rightarrow> []),
                                 start = DateValue d\<rparr>]
                         else [])
                      @ after)))"
    unfolding get_todays_events_split v by (simp split: sum.splits)
qed

theorem date_only_event_ignores_window_witness:
  "c_name (vevent ''Holiday'' (DateValue (ymd 2024 1 15))) = ''VEVENT'' \<and>
   c_dtstart (vevent ''Holiday'' (DateValue (ymd 2024 1 15))) =
     Some (Prop (DateValue (ymd 2024 1 15))) \<and>
   window_test pacific (Some ''8AM'') (DateValue (ymd 2024 1 15)) \<and>
   get_todays_events (offline (to_seconds (at_time (ymd 2024 1 15) 16 30 (Some 0))) utc)
       [vevent ''Holiday'' (DateValue (ymd 2024 1 15))] pacific (Some ''8AM'') =
     Inr [\<lparr>summary = ''Holiday'', start = DateValue (ymd 2024 1 15)\<rparr>]"
proof -
  have h1: "c_name (vevent ''Holiday'' (DateValue (ymd 2024 1 15))) = ''VEVENT''"
    by (simp add: vevent_def)
  have h2: "c_dtstart (vevent ''Holiday'' (DateValue (ymd 2024 1 15))) =
              Some (Prop (DateValue (ymd 2024 1 15)))"
    by (simp add: vevent_def)
  have today: "dt_date (datetime_now (offline (to_seconds (at_time (ymd 2024 1 15) 16 30 (Some 0))) utc)
                  (Some pacific)) = ymd 2024 1 15"
    by code_simp
  have s: "c_summary (vevent ''Holiday'' (DateValue (ymd 2024 1 15))) = Some ''Holiday''"
    by (simp add: vevent_def)
  show ?thesis
    using h1 h2
      date_only_event_ignores_window [OF h1 h2, of pacific "Some ''8AM''"
        "offline (to_seconds (at_time (ymd 2024 1 15) 16 30 (Some 0))) utc" "[]" "[]"]
    by (simp add: today s get_todays_events_Nil)
qed

text \<open>
  Claim C6, where the program departs from it. It is 06:00 on 5 March 2024 in a zone
  nine hours east of UTC. The naive start 2024-03-05 07:30 and the aware start
  2024-03-04T22:30:00Z show the same wall-clock time in that zone, and both pass the
  window test of the morning window. The filter keeps the naive one and drops the aware
  one: the date of the aware start as it is written, 4 March, is not today's.
\<close>

theorem aware_start_dropped_where_naive_is_kept:
  "dt_date (datetime_now (offline (to_seconds (at_time (ymd 2024 3 4) 21 0 (Some 0))) utc) (Some tokyo))
     = ymd 2024 3 5 \<and>
   utcoffset (at_time (ymd 2024 3 5) 7 30 None) = None \<and>
   local_dt tokyo (at_time (ymd 2024 3 5) 7 30 None) =
     (at_time (ymd 2024 3 5) 7 30 None)\<lparr>utcoffset := Some 32400\<rparr> \<and>
   local_dt tokyo (at_time (ymd 2024 3 4) 22 30 (Some 0)) =
     (at_time (ymd 2024 3 5) 7 30 None)\<lparr>utcoffset := Some 32400\<rparr> \<and>
   window_test tokyo (Some ''8AM'') (DateTimeValue (at_time (ymd 2024 3 5) 7 30 None)) \<and>
   window_test tokyo (Some ''8AM'') (DateTimeValue (at_time (ymd 2024 3 4) 22 30 (Some 0))) \<and>
   get_todays_events (offline (to_seconds (at_time (ymd 2024 3 4) 21 0 (Some 0))) utc)
       [vevent ''Grand Rounds'' (DateTimeValue (at_time (ymd 2024 3 5) 7 30 None))]
       tokyo (Some ''8AM'') =
     Inr [\<lparr>summary = ''Grand Rounds'', start = DateTimeValue (at_time (ymd 2024 3 5) 7 30 None)\<rparr>] \<and>
   get_todays_events (offline (to_seconds (at_time (ymd 2024 3 4) 21 0 (Some 0))) utc)
       [vevent ''Grand Rounds'' (DateTimeValue (at_time (ymd 2024 3 4) 22 30 (Some 0)))]
       tokyo (Some ''8AM'') = Inr []"
  by code_simp

subsection \<open>The entry point\<close>

lemma check_calendar_cases:
  "check_calendar env cfg a =
     (case fetch_calendar env (cfg_calendar_url cfg) of
        Inl e \<Rightarrow> Inl e
      | Inr cal \<Rightarrow>
          (case get_todays_events env cal (cfg_timezone cfg) (Some (arg_time a)) of
             Inl e \<Rightarrow> Inl e
           | Inr events \<Rightarrow>
               Inr (is_conference_day (str_lower env) events (cfg_skip_keywords cfg))))"
  by (simp add: check_calendar_def)

text \<open>
  Claim C7, as the program has it. The \<^verbatim>\<open>try\<close> block holds the fetch, the parse, the
  filter and the classifier, and any exception in it is caught. Whatever the block ends
  in: when it raised and \<^verbatim>\<open>--force\<close> is absent, \<^verbatim>\<open>main\<close> exits with code 1 and never
  calls the survey driver; when it raised and \<^verbatim>\<open>--force\<close> is set, \<^verbatim>\<open>main\<close> goes on as
  it does for a conference day; when the classifier answered \<open>False\<close> and \<^verbatim>\<open>--force\<close>
  is absent, it exits with code 0 and never calls the driver; in every other run it calls
  the driver once, with the configured values, and exits with code 0 when the driver
  returns \<open>True\<close> and with code 1 otherwise. In the model the block raises when the fetch
  or the parse fails and when the filter raises, and gives the classifier's answer
  otherwise.
\<close>

theorem main_exit_codes:
  "(tried = Inl e \<and> \<not> arg_force a \<longrightarrow> main_from tried env perform cfg a b0 = (1, [], b0)) \<and>
   (tried = Inl e \<and> arg_force a \<longrightarrow>
      main_from tried env perform cfg a b0 = main_from (Inr True) env perform cfg a b0) \<and>
   (tried = Inr False \<and> \<not> arg_force a \<longrightarrow> main_from tried env perform cfg a b0 = (0, [], b0)) \<and>
   (\<not> ((\<exists>e'. tried = Inl e') \<and> \<not> arg_force a) \<and> \<not> (tried = Inr False \<and> \<not> arg_force a) \<longrightarrow>
      (case submit_survey env perform (cfg_name cfg) (arg_time a) (cfg_default_responses cfg)
              (cfg_comment cfg) (cfg_survey_url cfg) (arg_dry_run a) b0 of
         (result, b') \<Rightarrow>
           main_from tried env perform cfg a b0 =
             ((if result = Returned True then 0 else 1), [the_call cfg a], b'))) \<and>
   (check_calendar env cfg a = Inl e \<longrightarrow>
      main env perform cfg a b0 = main_from (Inl e) env perform cfg a b0) \<and>
   (check_calendar env cfg a = Inr (is_conf, reason) \<longrightarrow>
      main env perform cfg a b0 = main_from (Inr is_conf) env perform cfg a b0) \<and>
   (fetch_calendar env (cfg_calendar_url cfg) = Inl e \<longrightarrow> check_calendar env cfg a = Inl e) \<and>
   (fetch_calendar env (cfg_calendar_url cfg) = Inr cal \<and>
    get_todays_events env cal (cfg_timezone cfg) (Some (arg_time a)) = Inl e \<longrightarrow>
      check_calendar env cfg a = Inl e) \<and>
   (fetch_calendar env (cfg_calendar_url cfg) = Inr cal \<and>
    get_todays_events env cal (cfg_timezone cfg) (Some (arg_time a)) = Inr events \<longrightarrow>
      check_calendar env cfg a =
        Inr (is_conference_day (str_lower env) events (cfg_skip_keywords cfg)))"
proof -
  let ?P = "\<lambda>t. case submit_survey env perform (cfg_name cfg) (arg_time a)
              (cfg_default_responses cfg) (cfg_comment cfg) (cfg_survey_url cfg) (arg_dry_run a) b0 of
         (result, b') \<Rightarrow>
           main_from t env perform cfg a b0 =
             ((if result = Returned True then 0 else 1), [the_call cfg a], b')"
  have c1: "main_from tried env perform cfg a b0 = (1, [], b0)"
    if "tried = Inl e \<and> \<not> arg_force a"
    using that by (simp add: main_from_def)
  have c2: "main_from tried env perform cfg a b0 = main_from (Inr True) env perform cfg a b0"
    if "tried = Inl e \<and> arg_force a"
    using that by (simp add: main_from_def)
  have c3: "main_from tried env perform cfg a b0 = (0, [], b0)"
    if "tried = Inr False \<and> \<not> arg_force a"
    using that by (simp add: main_from_def)
  have c4: "?P tried"
    if h: "\<not> ((\<exists>e'. tried = Inl e') \<and> \<not> arg_force a) \<and> \<not> (tried = Inr False \<and> \<not> arg_force a)"
  proof (cases tried)
    case (Inl x)
    with h have "arg_force a" by auto
    with Inl show ?thesis by (simp add: main_from_def split: prod.splits)
  next
    case (Inr c)
    with h have "c \<or> arg_force a" by auto
    with Inr show ?thesis by (auto simp add: main_from_def split: prod.splits)
  qed
  have c5: "main env perform cfg a b0 = main_from (Inl e) env perform cfg a b0"
    if "check_calendar env cfg a = Inl e"
    using that by (simp add: main_def)
  have c6: "main env perform cfg a b0 = main_from (Inr is_conf) env perform cfg a b0"
    if "check_calendar env cfg a = Inr (is_conf, reason)"
    using that by (simp add: main_def)
  have c7: "check_calendar env cfg a = Inl e"
    if "fetch_calendar env (cfg_calendar_url cfg) = Inl e"
    using that by (simp add: check_calendar_def)
  have c8: "check_calendar env cfg a = Inl e"
    if "fetch_calendar env (cfg_calendar_url cfg) = Inr cal \<and>
        get_todays_events env cal (cfg_timezone cfg) (Some (arg_time a)) = Inl e"
    using that by (simp add: check_calendar_def)
  have c9: "check_calendar env cfg a =
        Inr (is_conference_day (str_lower env) events (cfg_skip_keywords cfg))"
    if "fetch_calendar env (cfg_calendar_url cfg) = Inr cal \<and>
        get_todays_events env cal (cfg_timezone cfg) (Some (arg_time a)) = Inr events"
    using that by (simp add: check_calendar_def)
  from c1 c2 c3 c4 c5 c6 c7 c8 c9 show ?thesis by (intro conjI impI)
qed

text \<open>
  Six runs: the network is down, without and with \<^verbatim>\<open>--force\<close>; the calendar has an
  event whose DTSTART is given twice, without and with \<^verbatim>\<open>--force\<close>; the calendar has
  an Admin Day today; the calendar has Grand Rounds today and every click in the browser
  times out.
\<close>

theorem main_exit_codes_witness:
  "main (offline noon_utc utc) obliging (sample_config pacific) (sample_args ''8AM'' False) ()
     = (1, [], ()) \<and>
   main (offline noon_utc utc) obliging (sample_config pacific) (sample_args ''8AM'' True) ()
     = (0, [the_call (sample_config pacific) (sample_args ''8AM'' True)], ()) \<and>
   main (serving noon_utc utc [doubled_start ''Grand Rounds'']) obliging
        (sample_config pacific) (sample_args ''8AM'' False) ()
     = (1, [], ()) \<and>
   main (serving noon_utc utc [doubled_start ''Grand Rounds'']) obliging
        (sample_config pacific) (sample_args ''8AM'' True) ()
     = (0, [the_call (sample_config pacific) (sample_args ''8AM'' True)], ()) \<and>
   main (serving noon_utc utc [vevent ''Admin Day'' (DateValue (ymd 2024 1 15))]) obliging
        (sample_config pacific) (sample_args ''8AM'' False) ()
     = (0, [], ()) \<and>
   main (serving noon_utc utc [vevent ''Grand Rounds'' (DateValue (ymd 2024 1 15))]) stuck
        (sample_config pacific) (sample_args ''8AM'' False) ()
     = (1, [the_call (sample_config pacific) (sample_args ''8AM'' False)], ())"
proof (intro conjI)
  let ?cfg = "sample_config pacific"
  let ?no = "sample_args ''8AM'' False"
  let ?yes = "sample_args ''8AM'' True"
  have no_force: "\<not> arg_force ?no" and force: "arg_force ?yes"
    by (simp_all add: sample_args_def)
  have ok1: "submit_survey (offline noon_utc utc) obliging (cfg_name ?cfg) (arg_time ?yes)
              (cfg_default_responses ?cfg) (cfg_comment ?cfg) (cfg_survey_url ?cfg)
              (arg_dry_run ?yes) () = (Returned True, ())"
    by code_simp
  have ok2: "submit_survey (serving noon_utc utc [doubled_start ''Grand Rounds'']) obliging
              (cfg_name ?cfg) (arg_time ?yes) (cfg_default_responses ?cfg) (cfg_comment ?cfg)
              (cfg_survey_url ?cfg) (arg_dry_run ?yes) () = (Returned True, ())"
    by code_simp
  have down: "check_calendar (offline noon_utc utc) ?cfg x = Inl RequestException" for x
    by (simp add: check_calendar_def fetch_calendar_def offline_def)
  note T = main_exit_codes [where perform = obliging and cfg = ?cfg and ?b0.0 = "()"]
  show "main (offline noon_utc utc) obliging ?cfg ?no () = (1, [], ())"
    using T [where env = "offline noon_utc utc" and a = ?no and e = RequestException
               and tried = "Inl RequestException"] down [of ?no] no_force
    by simp
  show "main (offline noon_utc utc) obliging ?cfg ?yes ()
     = (0, [the_call ?cfg ?yes], ())"
    using T [where env = "offline noon_utc utc" and a = ?yes and e = RequestException
               and tried = "Inl RequestException"]
          T [where env = "offline noon_utc utc" and a = ?yes and tried = "Inr True"]
          down [of ?yes] force ok1
    by simp
  have broken: "check_calendar (serving noon_utc utc [doubled_start ''Grand Rounds'']) ?cfg x
                  = Inl AttributeError" for x
    by (simp add: check_calendar_def fetch_calendar_def serving_def get_todays_events_def
                  visit_def doubled_start_def)
  show "main (serving noon_utc utc [doubled_start ''Grand Rounds'']) obliging ?cfg ?no ()
     = (1, [], ())"
    using T [where env = "serving noon_utc utc [doubled_start ''Grand Rounds'']" and a = ?no
               and e = AttributeError and tried = "Inl AttributeError"] broken [of ?no] no_force
    by simp
  show "main (serving noon_utc utc [doubled_start ''Grand Rounds'']) obliging ?cfg ?yes ()
     = (0, [the_call ?cfg ?yes], ())"
    using T [where env = "serving noon_utc utc [doubled_start ''Grand Rounds'']" and a = ?yes
               and e = AttributeError and tried = "Inl AttributeError"]
          T [where env = "serving noon_utc utc [doubled_start ''Grand Rounds'']" and a = ?yes
               and tried = "Inr True"]
          broken [of ?yes] force ok2
    by simp
  have skip: "check_calendar (serving noon_utc utc [vevent ''Admin Day'' (DateValue (ymd 2024 1 15))])
                ?cfg ?no
              = Inr (False, ''Found skip keyword 'admin' in event: Admin Day'')"
    by code_simp
  show "main (serving noon_utc utc [vevent ''Admin Day'' (DateValue (ymd 2024 1 15))]) obliging
        ?cfg ?no () = (0, [], ())"
    using T [where env = "serving noon_utc utc [vevent ''Admin Day'' (DateValue (ymd 2024 1 15))]"
               and a = ?no and is_conf = False
               and reason = "''Found skip keyword 'admin' in event: Admin Day''"
               and tried = "Inr False"]
          skip no_force
    by simp
  have conf: "check_calendar (serving noon_utc utc [vevent ''Grand Rounds'' (DateValue (ymd 2024 1 15))])
                ?cfg ?no
              = Inr (True, ''Conference day detected. Events: Grand Rounds'')"
    by code_simp
  have fails: "submit_survey (serving noon_utc utc [vevent ''Grand Rounds'' (DateValue (ymd 2024 1 15))])
              stuck (cfg_name ?cfg) (arg_time ?no) (cfg_default_responses ?cfg) (cfg_comment ?cfg)
              (cfg_survey_url ?cfg) (arg_dry_run ?no) () = (Returned False, ())"
    by code_simp
  show "main (serving noon_utc utc [vevent ''Grand Rounds'' (DateValue (ymd 2024 1 15))]) stuck
        ?cfg ?no ()
     = (1, [the_call ?cfg ?no], ())"
    using main_exit_codes [where perform = stuck and cfg = ?cfg and ?b0.0 = "()"
               and env = "serving noon_utc utc [vevent ''Grand Rounds'' (DateValue (ymd 2024 1 15))]"
               and a = ?no and is_conf = True
               and reason = "''Conference day detected. Events: Grand Rounds''"
               and tried = "Inr True"]
          conf no_force
    by (simp add: fails)
qed

text \<open>
  The calendar is fetched and parsed, one of its events has its DTSTART given twice, and
  \<^verbatim>\<open>--force\<close> is absent: neither the fetch nor the parse failed and the classifier
  gave no answer, yet \<^verbatim>\<open>main\<close> exits with code 1 and the driver is not called.
\<close>

theorem main_exit_codes_counterexample:
  "fetch_calendar (serving noon_utc utc [doubled_start ''Grand Rounds''])
     (cfg_calendar_url (sample_config pacific)) = Inr [doubled_start ''Grand Rounds''] \<and>
   \<not> arg_force (sample_args ''8AM'' False) \<and>
   check_calendar (serving noon_utc utc [doubled_start ''Grand Rounds''])
     (sample_config pacific) (sample_args ''8AM'' False) = Inl AttributeError \<and>
   main (serving noon_utc utc [doubled_start ''Grand Rounds'']) obliging
     (sample_config pacific) (sample_args ''8AM'' False) () = (1, [], ())"
  by code_simp

subsection \<open>The survey driver\<close>

text \<open>
  Claim C8, where the program departs from it. The click that leaves page 1 has four
  alternatives, the last of them the last button of the page; the click that submits
  page 2 has the first three only. On a page whose only button has neither the label
  Next, nor the arrow, nor the class, the first click finds that button and the second
  finds nothing and times out: every statement up to the submit click succeeds, and
  \<^verbatim>\<open>submit_survey\<close> returns \<open>False\<close>.
\<close>

theorem page2_submit_lacks_last_button:
  "candidates page1_next = candidates page2_submit @ [Css ''button >> nth=-1''] \<and>
   page2_submit \<noteq> page1_next \<and>
   Do (Click page1_next) \<in> set (survey_steps name lecture_time responses comment survey_url False today) \<and>
   Do (Click page2_submit) \<in> set (survey_steps name lecture_time responses comment survey_url False today) \<and>
   click_target lone_button_page page1_next = Inr 0 \<and>
   click_target lone_button_page page2_submit = Inl TimeoutError \<and>
   run_steps (browser_on lone_button_page)
     (butlast (butlast (survey_steps ''Your Name'' ''8AM'' [5, 5, 5] [] ''https://ucsf.co1.qualtrics.com/jfe/form/SV_8kUOSKMVlxBzCp8''
                          False ''01/15/2024''))) () = (None, ()) \<and>
   submit_survey (offline noon_utc utc) (browser_on lone_button_page)
     ''Your Name'' ''8AM'' [5, 5, 5] [] ''https://ucsf.co1.qualtrics.com/jfe/form/SV_8kUOSKMVlxBzCp8'' False () = (Returned False, ())"
proof (intro conjI)
  show "candidates page1_next = candidates page2_submit @ [Css ''button >> nth=-1'']"
    by (simp add: page1_next_def page2_submit_def)
  show "page2_submit \<noteq> page1_next"
    by (simp add: page1_next_def page2_submit_def)
  show "Do (Click page1_next) \<in> set (survey_steps name lecture_time responses comment survey_url False today)"
    by (simp add: survey_steps_def)
  show "Do (Click page2_submit) \<in> set (survey_steps name lecture_time responses comment survey_url False today)"
    by (simp add: survey_steps_def)
  show "click_target lone_button_page page1_next = Inr 0"
    by code_simp
  show "click_target lone_button_page page2_submit = Inl TimeoutError"
    by code_simp
  show "run_steps (browser_on lone_button_page)
     (butlast (butlast (survey_steps ''Your Name'' ''8AM'' [5, 5, 5] [] ''https://ucsf.co1.qualtrics.com/jfe/form/SV_8kUOSKMVlxBzCp8''
                          False ''01/15/2024''))) () = (None, ())"
    by code_simp
  show "submit_survey (offline noon_utc utc) (browser_on lone_button_page)
     ''Your Name'' ''8AM'' [5, 5, 5] [] ''https://ucsf.co1.qualtrics.com/jfe/form/SV_8kUOSKMVlxBzCp8'' False () = (Returned False, ())"
    by code_simp
qed

text \<open>What a recording browser has logged after a run comes from the statements run.\<close>

lemma typed_into_set: "set (typed_into field log) = {t. Fill field t \<in> set log}"
  by (induction field log rule: typed_into.induct) auto

lemma recording_log:
  assumes "recording perform a s = (r, s')"
  shows "snd s' = snd s @ [a]"
  using assms by (auto simp: recording_def split: prod.splits)

lemma run_step_log:
  assumes "run_step (recording perform) st s = (r, s')"
  shows "set (snd s') \<subseteq> set (snd s) \<union> set (step_actions st)"
proof (cases st)
  case (Do a)
  with assms show ?thesis by (auto dest: recording_log)
next
  case (TryElse a fallback)
  obtain r1 s1 where first: "recording perform a s = (r1, s1)" by (cases "recording perform a s")
  then have s1: "snd s1 = snd s @ [a]" by (rule recording_log)
  show ?thesis
  proof (cases r1)
    case None
    with assms TryElse first have "s' = s1" by simp
    with s1 TryElse show ?thesis by auto
  next
    case (Some e)
    with assms TryElse first have "recording perform fallback s1 = (r, s')" by simp
    then have "snd s' = snd s1 @ [fallback]" by (rule recording_log)
    with s1 TryElse show ?thesis by auto
  qed
next
  case (Raise e)
  with assms show ?thesis by auto
qed

lemma run_steps_log:
  assumes "run_steps (recording perform) sts s = (r, s')"
  shows "set (snd s') \<subseteq> set (snd s) \<union> (\<Union>st\<in>set sts. set (step_actions st))"
  using assms
proof (induction sts arbitrary: s)
  case Nil
  then show ?case by auto
next
  case (Cons st sts)
  obtain r1 s1 where first: "run_step (recording perform) st s = (r1, s1)"
    by (cases "run_step (recording perform) st s")
  then have s1: "set (snd s1) \<subseteq> set (snd s) \<union> set (step_actions st)" by (rule run_step_log)
  show ?case
  proof (cases r1)
    case None
    with Cons.prems first have "run_steps (recording perform) sts s1 = (r, s')" by simp
    then have "set (snd s') \<subseteq> set (snd s1) \<union> (\<Union>st\<in>set sts. set (step_actions st))"
      by (rule Cons.IH)
    with s1 show ?thesis by auto
  next
    case (Some e)
    with Cons.prems first have "s' = s1" by simp
    with s1 show ?thesis by auto
  qed
qed

lemma date_fills_of_survey_steps:
  assumes "st \<in> set (survey_steps name lecture_time responses comment survey_url dry_run today)"
    and "Fill date_field t \<in> set (step_actions st)"
  shows "t = [] \<or> t = today"
proof -
  have likert: "Fill date_field t \<notin> set (step_actions (likert_step entry))" for entry
    by (cases entry) (simp add: likert_step_def Let_def split: option.splits)
  from assms likert show ?thesis
    by (auto simp: survey_steps_def date_field_def split: if_splits)
qed

lemma submit_survey_log:
  assumes "submit_survey env (recording perform) name lecture_time responses comment survey_url
             dry_run s = (result, s')"
  shows "set (snd s') \<subseteq> set (snd s) \<union> {Launch (\<not> dry_run), NewPage, Pause, Close}
           \<union> (\<Union>st\<in>set (survey_steps name lecture_time responses comment survey_url dry_run
                              (strftime_mdY (datetime_now env None))). set (step_actions st))"
    (is "_ \<subseteq> ?U")
proof -
  let ?today = "strftime_mdY (datetime_now env None)"
  let ?steps = "survey_steps name lecture_time responses comment survey_url dry_run ?today"
  let ?R = "recording perform"
  obtain r1 s1 where l: "?R (Launch (\<not> dry_run)) s = (r1, s1)"
    by (cases "?R (Launch (\<not> dry_run)) s")
  obtain r2 s2 where n: "?R NewPage s1 = (r2, s2)" by (cases "?R NewPage s1")
  obtain r3 s3 where run: "run_steps ?R ?steps s2 = (r3, s3)" by (cases "run_steps ?R ?steps s2")
  obtain r4 s4 where p: "?R Pause s3 = (r4, s4)" by (cases "?R Pause s3")
  obtain r5 s5 where c3: "?R Close s3 = (r5, s5)" by (cases "?R Close s3")
  obtain r6 s6 where c4: "?R Close s4 = (r6, s6)" by (cases "?R Close s4")
  have u1: "set (snd s1) \<subseteq> ?U" using recording_log [OF l] by auto
  have u2: "set (snd s2) \<subseteq> ?U" using recording_log [OF n] u1 by auto
  have u3: "set (snd s3) \<subseteq> ?U" using run_steps_log [OF run] u2 by auto
  have u4: "set (snd s4) \<subseteq> ?U" using recording_log [OF p] u3 by auto
  have u5: "set (snd s5) \<subseteq> ?U" using recording_log [OF c3] u3 by auto
  have u6: "set (snd s6) \<subseteq> ?U" using recording_log [OF c4] u4 by auto
  have "s' = s1 \<or> s' = s2 \<or> s' = s5 \<or> s' = s6"
    using assms l n run p c3 c4
    by (auto simp: submit_survey_def Let_def split: prod.splits option.splits if_splits)
  with u1 u2 u5 u6 show ?thesis by blast
qed

lemma submit_survey_date_fills:
  assumes "submit_survey env (recording perform) name lecture_time responses comment survey_url
             dry_run s = (result, s')"
    and "Fill date_field t \<in> set (snd s')"
  shows "Fill date_field t \<in> set (snd s) \<or> t = [] \<or> t = strftime_mdY (datetime_now env None)"
proof -
  from submit_survey_log [OF assms(1)] assms(2)
  have "Fill date_field t \<in> set (snd s) \<or>
        (\<exists>st\<in>set (survey_steps name lecture_time responses comment survey_url dry_run
                      (strftime_mdY (datetime_now env None))).
           Fill date_field t \<in> set (step_actions st))"
    by auto
  then show ?thesis using date_fills_of_survey_steps by blast
qed

text \<open>
  When the driver returns \<open>True\<close>, what it typed into the date field is the empty string
  and then the date of the system's local time.
\<close>

lemma typed_into_append:
  "typed_into field (xs @ ys) = typed_into field xs @ typed_into field ys"
  by (induction field xs rule: typed_into.induct) simp_all

lemma run_step_typed:
  assumes "run_step (recording perform) st s = (None, s')"
    and "\<And>a fb. st = TryElse a fb \<Longrightarrow> typed_into field [a] = [] \<and> typed_into field [fb] = []"
  shows "typed_into field (snd s') = typed_into field (snd s) @ typed_into field (step_actions st)"
proof (cases st)
  case (Do a)
  with assms(1) show ?thesis by (auto dest: recording_log simp: typed_into_append)
next
  case (TryElse a fb)
  obtain r1 s1 where first: "recording perform a s = (r1, s1)" by (cases "recording perform a s")
  then have s1: "snd s1 = snd s @ [a]" by (rule recording_log)
  have none: "typed_into field [a] = []" "typed_into field [fb] = []"
    using assms(2) [OF TryElse] by simp_all
  then have both: "typed_into field [a, fb] = []"
    using typed_into_append [of field "[a]" "[fb]"] by simp
  show ?thesis
  proof (cases r1)
    case None
    with assms(1) TryElse first have "s' = s1" by simp
    with s1 TryElse none both show ?thesis by (simp add: typed_into_append)
  next
    case (Some e)
    with assms(1) TryElse first have "recording perform fb s1 = (None, s')" by simp
    then have "snd s' = snd s1 @ [fb]" by (rule recording_log)
    with s1 TryElse none both show ?thesis by (simp add: typed_into_append)
  qed
next
  case (Raise e)
  with assms(1) show ?thesis by simp
qed

lemma run_steps_typed:
  assumes "run_steps (recording perform) sts s = (None, s')"
    and "\<And>a fb. TryElse a fb \<in> set sts \<Longrightarrow> typed_into field [a] = [] \<and> typed_into field [fb] = []"
  shows "typed_into field (snd s') =
           typed_into field (snd s) @ typed_into field (concat (map step_actions sts))"
  using assms
proof (induction sts arbitrary: s)
  case Nil
  then show ?case by simp
next
  case (Cons st sts)
  obtain r1 s1 where first: "run_step (recording perform) st s = (r1, s1)"
    by (cases "run_step (recording perform) st s")
  have r1: "r1 = None"
    using Cons.prems(1) first by (cases r1) simp_all
  with Cons.prems(1) first have rest: "run_steps (recording perform) sts s1 = (None, s')"
    by simp
  have "typed_into field (snd s1) = typed_into field (snd s) @ typed_into field (step_actions st)"
    using first [unfolded r1] Cons.prems(2) by (intro run_step_typed) auto
  moreover have "typed_into field (snd s') =
      typed_into field (snd s1) @ typed_into field (concat (map step_actions sts))"
    using rest Cons.prems(2) by (intro Cons.IH) auto
  ultimately show ?case by (simp add: typed_into_append)
qed

lemma likert_step_no_fill:
  "typed_into field (concat (map (step_actions \<circ> likert_step) entries)) = []"
proof (induction entries)
  case Nil
  show ?case by simp
next
  case (Cons entry entries)
  have "typed_into field (step_actions (likert_step entry)) = []"
    by (cases entry) (simp add: likert_step_def Let_def split: option.splits)
  with Cons show ?case by (simp add: typed_into_append)
qed

lemma survey_steps_try_else:
  assumes "TryElse a fb \<in> set (survey_steps name lecture_time responses comment survey_url dry_run today)"
  shows "typed_into field [a] = [] \<and> typed_into field [fb] = []"
proof -
  from assms obtain entry where "TryElse a fb = likert_step entry"
    by (auto simp: survey_steps_def split: if_splits)
  then show ?thesis
    by (cases entry) (auto simp: likert_step_def Let_def split: option.splits)
qed

lemma survey_steps_date_typed:
  "typed_into date_field
     (concat (map step_actions (survey_steps name lecture_time responses comment survey_url dry_run today)))
   = [[], today]"
  by (simp add: survey_steps_def typed_into_append likert_step_no_fill date_field_def)

lemma submit_survey_success_date:
  assumes "submit_survey env (recording perform) name lecture_time responses comment survey_url
             dry_run s = (Returned True, s')"
  shows "typed_into date_field (snd s') =
           typed_into date_field (snd s) @ [[], strftime_mdY (datetime_now env None)]"
proof -
  let ?today = "strftime_mdY (datetime_now env None)"
  let ?steps = "survey_steps name lecture_time responses comment survey_url dry_run ?today"
  let ?R = "recording perform"
  obtain r1 s1 where l: "?R (Launch (\<not> dry_run)) s = (r1, s1)"
    by (cases "?R (Launch (\<not> dry_run)) s")
  obtain r2 s2 where n: "?R NewPage s1 = (r2, s2)" by (cases "?R NewPage s1")
  obtain r3 s3 where run: "run_steps ?R ?steps s2 = (r3, s3)" by (cases "run_steps ?R ?steps s2")
  obtain r4 s4 where p: "?R Pause s3 = (r4, s4)" by (cases "?R Pause s3")
  obtain r5 s5 where c: "?R Close s3 = (r5, s5)" by (cases "?R Close s3")
  have ok: "r1 = None \<and> r2 = None \<and> r3 = None \<and> s' = s5"
    using assms l n run p c
    by (auto simp: submit_survey_def Let_def split: prod.splits option.splits if_splits)
  have t1: "typed_into date_field (snd s1) = typed_into date_field (snd s)"
    using recording_log [OF l] by (simp add: typed_into_append)
  have t2: "typed_into date_field (snd s2) = typed_into date_field (snd s1)"
    using recording_log [OF n] by (simp add: typed_into_append)
  have t3: "typed_into date_field (snd s3) = typed_into date_field (snd s2) @ [[], ?today]"
    using run_steps_typed [of perform ?steps s2 s3 date_field] run ok survey_steps_try_else
    by (simp add: survey_steps_date_typed)
  have t5: "typed_into date_field (snd s5) = typed_into date_field (snd s3)"
    using recording_log [OF c] by (simp add: typed_into_append)
  from ok t1 t2 t3 t5 show ?thesis by simp
qed

text \<open>
  Claim C10. Whatever zone is configured, every text that a run of \<^verbatim>\<open>main\<close> types
  into the date field of the form is the empty string that clears the field or the date
  of the system's local time, as month/day/year; and when the run ends with exit code 0
  after calling the driver, exactly these two texts were typed, in this order. The
  configured zone has no part in it. The date that the event filter calls today is taken
  in the configured zone, and there are clocks and zones for which the two dates differ.
\<close>

theorem survey_date_from_system_clock:
  "(\<forall>t\<in>set (typed_into date_field
              (snd (snd (snd (main env (recording perform) (cfg\<lparr>cfg_timezone := tz\<rparr>) a (b0, [])))))).
      t = [] \<or> t = strftime_mdY (datetime_now env None)) \<and>
   (fst (main env (recording perform) (cfg\<lparr>cfg_timezone := tz\<rparr>) a (b0, [])) = 0 \<and>
    fst (snd (main env (recording perform) (cfg\<lparr>cfg_timezone := tz\<rparr>) a (b0, []))) \<noteq> [] \<longrightarrow>
      typed_into date_field
        (snd (snd (snd (main env (recording perform) (cfg\<lparr>cfg_timezone := tz\<rparr>) a (b0, [])))))
      = [[], strftime_mdY (datetime_now env None)]) \<and>
   (\<exists>env' tz'. dt_date (datetime_now env' (Some tz')) \<noteq> dt_date (datetime_now env' None) \<and>
      strftime_mdY (datetime_now env' (Some tz')) \<noteq> strftime_mdY (datetime_now env' None))"
proof (intro conjI)
  let ?cfg = "cfg\<lparr>cfg_timezone := tz\<rparr>"
  let ?m = "main env (recording perform) ?cfg a (b0, [])"
  obtain result s' where sub:
    "submit_survey env (recording perform) (cfg_name ?cfg) (arg_time a)
       (cfg_default_responses ?cfg) (cfg_comment ?cfg) (cfg_survey_url ?cfg) (arg_dry_run a)
       (b0, []) = (result, s')"
    by (cases "submit_survey env (recording perform) (cfg_name ?cfg) (arg_time a)
       (cfg_default_responses ?cfg) (cfg_comment ?cfg) (cfg_survey_url ?cfg) (arg_dry_run a)
       (b0, [])")
  have m: "?m = (1, [], (b0, [])) \<or> ?m = (0, [], (b0, [])) \<or>
           ?m = ((if result = Returned True then 0 else 1), [the_call ?cfg a], s')"
    using sub by (auto simp: main_def main_from_def split: sum.splits prod.splits if_splits)
  show "\<forall>t\<in>set (typed_into date_field (snd (snd (snd ?m)))).
      t = [] \<or> t = strftime_mdY (datetime_now env None)"
  proof
    fix t
    assume "t \<in> set (typed_into date_field (snd (snd (snd ?m))))"
    then have t: "Fill date_field t \<in> set (snd (snd (snd ?m)))"
      by (simp add: typed_into_set)
    from m have "snd (snd ?m) = (b0, []) \<or> snd (snd ?m) = s'" by auto
    with t have "Fill date_field t \<in> set (snd s')" by auto
    then show "t = [] \<or> t = strftime_mdY (datetime_now env None)"
      using submit_survey_date_fills [OF sub, of t] by simp
  qed
  show "fst ?m = 0 \<and> fst (snd ?m) \<noteq> [] \<longrightarrow>
      typed_into date_field (snd (snd (snd ?m))) = [[], strftime_mdY (datetime_now env None)]"
  proof
    assume h: "fst ?m = 0 \<and> fst (snd ?m) \<noteq> []"
    with m have "?m = ((if result = Returned True then 0 else 1), [the_call ?cfg a], s')"
      by auto
    with h have "result = Returned True" and "snd (snd ?m) = s'"
      by (auto split: if_splits)
    with sub show "typed_into date_field (snd (snd (snd ?m))) =
        [[], strftime_mdY (datetime_now env None)]"
      using submit_survey_success_date [of env perform _ _ _ _ _ _ "(b0, [])" s'] by simp
  qed
  have "dt_date (datetime_now (offline small_hours utc) (Some pacific)) \<noteq>
        dt_date (datetime_now (offline small_hours utc) None) \<and>
        strftime_mdY (datetime_now (offline small_hours utc) (Some pacific)) \<noteq>
        strftime_mdY (datetime_now (offline small_hours utc) None)"
    by code_simp
  then show "\<exists>env' tz'. dt_date (datetime_now env' (Some tz')) \<noteq> dt_date (datetime_now env' None) \<and>
      strftime_mdY (datetime_now env' (Some tz')) \<noteq> strftime_mdY (datetime_now env' None)"
    by blast
qed

text \<open>
  At 03:00 UTC on 1 January 2024, on a system that keeps UTC, with a zone eight hours
  west of it configured: the filter keeps the event of 31 December, and the form gets
  01/01/2024.
\<close>

theorem survey_date_from_system_clock_witness:
  "set (typed_into date_field
         (snd (snd (snd (main
            (serving small_hours utc [vevent ''Grand Rounds'' (DateTimeValue (at_time (ymd 2023 12 31) 8 0 None))])
            (recording obliging) ((sample_config utc)\<lparr>cfg_timezone := pacific\<rparr>)
            (sample_args ''8AM'' False) ((), []))))))
     \<subseteq> {[], ''01/01/2024''} \<and>
   typed_into date_field
         (snd (snd (snd (main
            (serving small_hours utc [vevent ''Grand Rounds'' (DateTimeValue (at_time (ymd 2023 12 31) 8 0 None))])
            (recording obliging) ((sample_config utc)\<lparr>cfg_timezone := pacific\<rparr>)
            (sample_args ''8AM'' False) ((), [])))))
     = [[], ''01/01/2024''] \<and>
   get_todays_events
      (serving small_hours utc [vevent ''Grand Rounds'' (DateTimeValue (at_time (ymd 2023 12 31) 8 0 None))])
      [vevent ''Grand Rounds'' (DateTimeValue (at_time (ymd 2023 12 31) 8 0 None))]
      pacific (Some ''8AM'')
     = Inr [\<lparr>summary = ''Grand Rounds'', start = DateTimeValue (at_time (ymd 2023 12 31) 8 0 None)\<rparr>]"
proof (intro conjI)
  let ?env = "serving small_hours utc [vevent ''Grand Rounds'' (DateTimeValue (at_time (ymd 2023 12 31) 8 0 None))]"
  have d: "strftime_mdY (datetime_now ?env None) = ''01/01/2024''"
    by code_simp
  show "set (typed_into date_field
         (snd (snd (snd (main ?env
            (recording obliging) ((sample_config utc)\<lparr>cfg_timezone := pacific\<rparr>)
            (sample_args ''8AM'' False) ((), []))))))
     \<subseteq> {[], ''01/01/2024''}"
    using survey_date_from_system_clock [where env = ?env and perform = obliging
       and cfg = "sample_config utc" and tz = pacific and a = "sample_args ''8AM'' False"
       and ?b0.0 = "()"]
    unfolding d by blast
  show "typed_into date_field
         (snd (snd (snd (main ?env
            (recording obliging) ((sample_config utc)\<lparr>cfg_timezone := pacific\<rparr>)
            (sample_args ''8AM'' False) ((), [])))))
     = [[], ''01/01/2024'']"
    by code_simp
  show "get_todays_events ?env
      [vevent ''Grand Rounds'' (DateTimeValue (at_time (ymd 2023 12 31) 8 0 None))]
      pacific (Some ''8AM'')
     = Inr [\<lparr>summary = ''Grand Rounds'', start = DateTimeValue (at_time (ymd 2023 12 31) 8 0 None)\<rparr>]"
    by code_simp
qed

end
